theory Spec2Isabelle
  imports Main "HOL-Library.Char_ord" "HOL-Library.List_Lexorder" "HOL-Library.Multiset"
begin

section \<open>The record store of \<^verbatim>\<open>streamlit_app.py\<close>\<close>

text \<open>
  The data layer of the application is seven Python functions (\<^verbatim>\<open>init_db\<close>,
  \<^verbatim>\<open>add_student\<close>, \<^verbatim>\<open>get_students\<close>, \<^verbatim>\<open>delete_student\<close>, \<^verbatim>\<open>add_record\<close>,
  \<^verbatim>\<open>get_records\<close>, \<^verbatim>\<open>delete_record\<close>). Each one opens a connection to the file
  \<^verbatim>\<open>students.db\<close>, runs one or two SQL statements, commits and closes. The
  embedding has three layers, bottom up:
  \<^item> the database file: two optional tables, each with its rows, its
    \<^verbatim>\<open>AUTOINCREMENT\<close> counter and the constraints it was created with;
  \<^item> the connection calls the source makes (\<^verbatim>\<open>sqlite3.connect\<close>, \<^verbatim>\<open>execute\<close> of each
    statement text, \<^verbatim>\<open>commit\<close>, \<^verbatim>\<open>close\<close>), with the write lock on the file;
  \<^item> the seven Python functions, line by line, with a raised exception as the
    \<open>Inl\<close> branch of the result.

  The source is the third layer. The database engine (SQLite) and the module
  \<^verbatim>\<open>sqlite3\<close> are libraries the source calls; the first two layers state their
  documented behaviour for exactly the schema and the statements the source
  contains, each definition under the statement text it stands for.

  Parameters have the types the user interface passes and the schema declares:
  ids are integers, names, dates and contents are text. Text is a \<open>string\<close>, the
  sequence of bytes the engine stores and compares (\<^verbatim>\<open>BINARY\<close> collation: byte by
  byte, a proper prefix first), which is the order of \<open>HOL-Library.List_Lexorder\<close>
  over \<open>HOL-Library.Char_ord\<close>.

  An id is a Python integer of any size, and the engine stores signed 64-bit
  integers. The module refuses to bind an integer outside that range
  (\<^verbatim>\<open>OverflowError\<close>); the model has this check in the two \<^verbatim>\<open>DELETE\<close> statements,
  which are called with ids that no row needs to have. \<^verbatim>\<open>add_record\<close> and
  \<^verbatim>\<open>get_records\<close> are called with the id of a listed student, which the engine
  made, and the check is not repeated there. The ids the engine assigns are
  not bounded in the model: its ceiling of \<open>2^63 - 1\<close> takes that many inserts to
  reach. Failures of the disk are outside the model as well.
\<close>

subsection \<open>The database file\<close>

text \<open>
  \<^verbatim>\<open>students (id INTEGER PRIMARY KEY AUTOINCREMENT, name TEXT NOT NULL UNIQUE)\<close>
\<close>

record student_row =
  students_id :: int
  students_name :: string

text \<open>
  \<^verbatim>\<open>records (id INTEGER PRIMARY KEY AUTOINCREMENT, student_id INTEGER,
     date TEXT NOT NULL, content TEXT NOT NULL,
     FOREIGN KEY (student_id) REFERENCES students (id) ON DELETE CASCADE)\<close>
\<close>

record record_row =
  records_id :: int
  records_student_id :: int
  records_date :: string
  records_content :: string

text \<open>
  The column types, \<^verbatim>\<open>NOT NULL\<close> (a parameter here is text, never \<^verbatim>\<open>NULL\<close>) and
  the \<^verbatim>\<open>AUTOINCREMENT\<close> key are in the row types and in the counter of a table.
  The other clauses of a \<^verbatim>\<open>CREATE TABLE\<close> are constraints that a table carries
  from its creation on: \<^verbatim>\<open>UNIQUE\<close> on a column, and
  \<^verbatim>\<open>FOREIGN KEY (column) REFERENCES table (column) ON DELETE CASCADE\<close>.
\<close>

datatype constraint =
    Unique string
  | ForeignKeyCascade string string string

text \<open>
  A table is its rows, in the order they were inserted, the counter that
  \<^verbatim>\<open>AUTOINCREMENT\<close> keeps for it in \<^verbatim>\<open>sqlite_sequence\<close> (the largest row id the
  table has ever held, 0 before the first insert), and its constraints.
\<close>

record 'r table =
  tbl_rows :: "'r list"
  tbl_seq :: int
  tbl_constraints :: "constraint list"

text \<open>A table that was never created is \<open>None\<close>.\<close>

record database =
  students :: "student_row table option"
  records :: "record_row table option"

definition new_table :: "constraint list \<Rightarrow> 'r table" where
  "new_table cs = \<lparr>tbl_rows = [], tbl_seq = 0, tbl_constraints = cs\<rparr>"

definition no_database :: database where
  "no_database = \<lparr>students = None, records = None\<rparr>"

text \<open>The constraints in the two \<^verbatim>\<open>CREATE TABLE\<close> texts of \<^verbatim>\<open>init_db\<close>.\<close>

definition students_declared :: "constraint list" where
  "students_declared = [Unique ''name'']"

definition records_declared :: "constraint list" where
  "records_declared = [ForeignKeyCascade ''student_id'' ''students'' ''id'']"

subsection \<open>Connections\<close>

text \<open>
  The exceptions that the calls of this program can raise: a violated
  constraint; \<^verbatim>\<open>OperationalError\<close> for a statement on a table that does not
  exist (``no such table'') and for a write while another connection holds the
  write lock (``database is locked''); an integer parameter that does not fit.
\<close>

datatype reason = NoSuchTable | DatabaseLocked

datatype error = IntegrityError | OperationalError reason | OverflowError

text \<open>
  A connection sees the database with its own uncommitted changes (\<open>image\<close>) and
  has its own setting of \<^verbatim>\<open>PRAGMA foreign_keys\<close>. The engine parses a
  \<^verbatim>\<open>FOREIGN KEY\<close> clause always and enforces it only on a connection where the
  pragma is on. A connection writes inside a transaction that holds the write
  lock on the file, from its first \<^verbatim>\<open>INSERT\<close> or \<^verbatim>\<open>DELETE\<close> to its \<^verbatim>\<open>commit()\<close>
  (\<open>in_write\<close>); it cannot begin to write while another connection holds that
  lock (\<open>blocked\<close>). Reading needs no such lock.
\<close>

record connection =
  foreign_keys :: bool
  image :: database
  blocked :: bool
  in_write :: bool

text \<open>
  The world between two calls: the committed content of \<^verbatim>\<open>students.db\<close>, the
  number of connections that were opened and not closed by \<^verbatim>\<open>close()\<close>, and
  whether one of these holds the write lock. The calls run one after the other,
  so during a call the only other connections are those that earlier calls left
  open.
\<close>

record world =
  db_file :: database
  open_conns :: nat
  write_locked :: bool

text \<open>
  \<^verbatim>\<open>sqlite3.connect('students.db')\<close>. A new connection has foreign key enforcement
  off: the engine disables it by default, for compatibility with old files, and
  wants it enabled on each connection by \<^verbatim>\<open>PRAGMA foreign_keys = ON\<close>. The source
  has no such statement anywhere. (\<^verbatim>\<open>conn.cursor()\<close> only makes the handle on which
  \<^verbatim>\<open>execute\<close> runs; it has no definition of its own.)
\<close>

definition sqlite3_connect :: "world \<Rightarrow> connection \<times> world" where
  "sqlite3_connect w =
     (\<lparr>foreign_keys = False, image = db_file w, blocked = write_locked w, in_write = False\<rparr>,
      w\<lparr>open_conns := open_conns w + 1\<rparr>)"

text \<open>
  \<^verbatim>\<open>conn.commit()\<close>: what the connection sees becomes the content of the file. The
  transaction ends and its lock is free again, so a connection that has
  committed adds nothing to \<open>write_locked\<close>.
\<close>

definition conn_commit :: "connection \<Rightarrow> world \<Rightarrow> world" where
  "conn_commit conn w = w\<lparr>db_file := image conn\<rparr>"

text \<open>\<^verbatim>\<open>conn.close()\<close>, of a connection that has committed.\<close>

definition conn_close :: "connection \<Rightarrow> world \<Rightarrow> world" where
  "conn_close conn w = w\<lparr>open_conns := open_conns w - 1\<rparr>"

text \<open>
  A function that returns, or is left by an exception, without \<^verbatim>\<open>close()\<close>: the
  connection stays open, and with it the write transaction if it had begun one.
  Nothing in the source closes such a connection later, and the model has no
  finalizer that would.
\<close>

definition abandon :: "connection \<Rightarrow> world \<Rightarrow> world" where
  "abandon conn w = w\<lparr>write_locked := write_locked w \<or> in_write conn\<rparr>"

text \<open>
  Whether the module can bind a Python integer: it must be a signed 64-bit
  integer.
\<close>

definition fits_int64 :: "int \<Rightarrow> bool" where
  "fits_int64 i \<longleftrightarrow> - (2 ^ 63) \<le> i \<and> i < 2 ^ 63"

subsection \<open>The SQL statements\<close>

text \<open>
  A statement returns normally or raises, and leaves the connection in a new
  state either way. The order of the checks is the order of the module: the
  statement is compiled (a missing table is found here), an integer parameter is
  bound, and the statement runs (a write takes the lock first, and then looks
  at the constraints).
\<close>

type_synonym 'a outcome = "(error + 'a) \<times> connection"

text \<open>
  \<^verbatim>\<open>CREATE TABLE IF NOT EXISTS\<close>: an existing table is left as it is and nothing
  is written; a missing table is created empty, with the constraints of the
  statement. The module opens no transaction for it: the statement takes the
  lock and gives it back by itself.
\<close>

definition sql_create_students :: "connection \<Rightarrow> unit outcome" where
  "sql_create_students conn =
     (case students (image conn) of
        Some t \<Rightarrow> (Inr (), conn)
      | None \<Rightarrow>
          if blocked conn then (Inl (OperationalError DatabaseLocked), conn)
          else (Inr (), conn\<lparr>image := (image conn)\<lparr>students := Some (new_table students_declared)\<rparr>\<rparr>))"

definition sql_create_records :: "connection \<Rightarrow> unit outcome" where
  "sql_create_records conn =
     (case records (image conn) of
        Some t \<Rightarrow> (Inr (), conn)
      | None \<Rightarrow>
          if blocked conn then (Inl (OperationalError DatabaseLocked), conn)
          else (Inr (), conn\<lparr>image := (image conn)\<lparr>records := Some (new_table records_declared)\<rparr>\<rparr>))"

text \<open>
  The row id of an \<^verbatim>\<open>AUTOINCREMENT\<close> insert: one more than the largest id in the
  table (1 for an empty table), and at least one more than the counter.
\<close>

definition next_rowid :: "int list \<Rightarrow> int \<Rightarrow> int" where
  "next_rowid ids s = max (case ids of [] \<Rightarrow> 1 | i # is \<Rightarrow> fold max is i + 1) (s + 1)"

text \<open>
  \<^verbatim>\<open>INSERT INTO students (name) VALUES (?)\<close>. The \<^verbatim>\<open>UNIQUE\<close> constraint on the name
  aborts the statement, and nothing of it stays, the counter included; the
  transaction it had begun stays open.
\<close>

definition sql_insert_student :: "string \<Rightarrow> connection \<Rightarrow> unit outcome" where
  "sql_insert_student name conn =
     (case students (image conn) of
        None \<Rightarrow> (Inl (OperationalError NoSuchTable), conn)
      | Some t \<Rightarrow>
          if blocked conn then (Inl (OperationalError DatabaseLocked), conn)
          else if Unique ''name'' \<in> set (tbl_constraints t)
                  \<and> name \<in> set (map students_name (tbl_rows t))
          then (Inl IntegrityError, conn\<lparr>in_write := True\<rparr>)
          else
            let i = next_rowid (map students_id (tbl_rows t)) (tbl_seq t);
                t' = t\<lparr>tbl_rows := tbl_rows t @ [\<lparr>students_id = i, students_name = name\<rparr>],
                       tbl_seq := i\<rparr>
            in (Inr (), conn\<lparr>image := (image conn)\<lparr>students := Some t'\<rparr>, in_write := True\<rparr>))"

text \<open>\<^verbatim>\<open>SELECT id, name FROM students ORDER BY name ASC\<close>, with \<^verbatim>\<open>fetchall()\<close>.\<close>

definition sql_select_students :: "connection \<Rightarrow> error + (int \<times> string) list" where
  "sql_select_students conn =
     (case students (image conn) of
        None \<Rightarrow> Inl (OperationalError NoSuchTable)
      | Some t \<Rightarrow>
          Inr (map (\<lambda>r. (students_id r, students_name r))
                 (sort_key students_name (tbl_rows t))))"

text \<open>
  The rows that \<^verbatim>\<open>ON DELETE CASCADE\<close> removes with the student \<open>i\<close>, when the table
  of records was created with that clause.
\<close>

definition cascade_delete :: "int \<Rightarrow> database \<Rightarrow> database" where
  "cascade_delete i db =
     (case records db of
        None \<Rightarrow> db
      | Some rt \<Rightarrow>
          if ForeignKeyCascade ''student_id'' ''students'' ''id'' \<in> set (tbl_constraints rt)
          then db\<lparr>records :=
                 Some (rt\<lparr>tbl_rows := filter (\<lambda>r. records_student_id r \<noteq> i) (tbl_rows rt)\<rparr>)\<rparr>
          else db)"

text \<open>
  \<^verbatim>\<open>DELETE FROM students WHERE id = ?\<close>. The cascade runs for a deleted row, on a
  connection that enforces foreign keys.
\<close>

definition sql_delete_student :: "int \<Rightarrow> connection \<Rightarrow> unit outcome" where
  "sql_delete_student i conn =
     (case students (image conn) of
        None \<Rightarrow> (Inl (OperationalError NoSuchTable), conn)
      | Some t \<Rightarrow>
          if \<not> fits_int64 i then (Inl OverflowError, conn)
          else if blocked conn then (Inl (OperationalError DatabaseLocked), conn)
          else
            let db = (image conn)\<lparr>students :=
                        Some (t\<lparr>tbl_rows := filter (\<lambda>r. students_id r \<noteq> i) (tbl_rows t)\<rparr>)\<rparr>
            in (Inr (), conn\<lparr>image :=
                      (if foreign_keys conn \<and> i \<in> set (map students_id (tbl_rows t))
                       then cascade_delete i db else db),
                    in_write := True\<rparr>))"

text \<open>
  Whether the parent row of a new record exists, as a connection that enforces
  foreign keys checks it.
\<close>

definition parent_check :: "int \<Rightarrow> database \<Rightarrow> error option" where
  "parent_check i db =
     (case students db of
        None \<Rightarrow> Some (OperationalError NoSuchTable)
      | Some t \<Rightarrow>
          if i \<in> set (map students_id (tbl_rows t)) then None else Some IntegrityError)"

text \<open>\<^verbatim>\<open>INSERT INTO records (student_id, date, content) VALUES (?, ?, ?)\<close>\<close>

definition sql_insert_record :: "int \<Rightarrow> string \<Rightarrow> string \<Rightarrow> connection \<Rightarrow> unit outcome" where
  "sql_insert_record student_id date content conn =
     (case records (image conn) of
        None \<Rightarrow> (Inl (OperationalError NoSuchTable), conn)
      | Some t \<Rightarrow>
          if blocked conn then (Inl (OperationalError DatabaseLocked), conn)
          else
            (case (if foreign_keys conn
                      \<and> ForeignKeyCascade ''student_id'' ''students'' ''id''
                          \<in> set (tbl_constraints t)
                   then parent_check student_id (image conn) else None) of
               Some e \<Rightarrow> (Inl e, conn\<lparr>in_write := True\<rparr>)
             | None \<Rightarrow>
                 let i = next_rowid (map records_id (tbl_rows t)) (tbl_seq t);
                     t' = t\<lparr>tbl_rows := tbl_rows t @
                             [\<lparr>records_id = i, records_student_id = student_id,
                               records_date = date, records_content = content\<rparr>],
                            tbl_seq := i\<rparr>
                 in (Inr (), conn\<lparr>image := (image conn)\<lparr>records := Some t'\<rparr>,
                               in_write := True\<rparr>)))"

text \<open>
  \<^verbatim>\<open>ORDER BY ... DESC\<close>: the rows by falling key. Rows of equal key come in the
  order of the table here; the engine promises no order among them, and no
  theorem below depends on it.
\<close>

definition order_by_desc :: "('r \<Rightarrow> 'k::linorder) \<Rightarrow> 'r list \<Rightarrow> 'r list" where
  "order_by_desc k xs = rev (sort_key k (rev xs))"

text \<open>
  \<^verbatim>\<open>SELECT id, date, content FROM records WHERE student_id = ? ORDER BY date DESC\<close>,
  with \<^verbatim>\<open>fetchall()\<close>.
\<close>

definition sql_select_records :: "int \<Rightarrow> connection \<Rightarrow> error + (int \<times> string \<times> string) list" where
  "sql_select_records student_id conn =
     (case records (image conn) of
        None \<Rightarrow> Inl (OperationalError NoSuchTable)
      | Some t \<Rightarrow>
          Inr (map (\<lambda>r. (records_id r, records_date r, records_content r))
                 (order_by_desc records_date
                    (filter (\<lambda>r. records_student_id r = student_id) (tbl_rows t)))))"

text \<open>\<^verbatim>\<open>DELETE FROM records WHERE id=?\<close>\<close>

definition sql_delete_record :: "int \<Rightarrow> connection \<Rightarrow> unit outcome" where
  "sql_delete_record i conn =
     (case records (image conn) of
        None \<Rightarrow> (Inl (OperationalError NoSuchTable), conn)
      | Some t \<Rightarrow>
          if \<not> fits_int64 i then (Inl OverflowError, conn)
          else if blocked conn then (Inl (OperationalError DatabaseLocked), conn)
          else
            (Inr (), conn\<lparr>image := (image conn)\<lparr>records :=
                        Some (t\<lparr>tbl_rows := filter (\<lambda>r. records_id r \<noteq> i) (tbl_rows t)\<rparr>)\<rparr>,
                      in_write := True\<rparr>))"

subsection \<open>The functions of the source\<close>

text \<open>
  Each function returns its result, or the exception that left it, and the world
  after the call. An exception leaves the function at the statement that raised
  it: the lines after it, \<^verbatim>\<open>commit()\<close> and \<^verbatim>\<open>close()\<close>, do not run, and no function
  of the source has a \<^verbatim>\<open>finally\<close> or a \<^verbatim>\<open>with\<close> block, so the connection is
  abandoned as it is.
\<close>

type_synonym 'a result = "(error + 'a) \<times> world"

text \<open>\<^verbatim>\<open>init_db\<close>, lines 8 to 30.\<close>

definition init_db :: "world \<Rightarrow> unit result" where
  "init_db w =
     (case sqlite3_connect w of (conn, w1) \<Rightarrow>
        (case sql_create_students conn of
           (Inl e, conn1) \<Rightarrow> (Inl e, abandon conn1 w1)
         | (Inr u, conn1) \<Rightarrow>
             (case sql_create_records conn1 of
                (Inl e, conn2) \<Rightarrow> (Inl e, abandon conn2 w1)
              | (Inr u, conn2) \<Rightarrow> (Inr (), conn_close conn2 (conn_commit conn2 w1)))))"

text \<open>
  \<^verbatim>\<open>add_student\<close>, lines 35 to 44. The handler catches \<^verbatim>\<open>IntegrityError\<close> only and
  returns \<^verbatim>\<open>False\<close>; it does not roll back, does not commit and does not close.
\<close>

definition add_student :: "string \<Rightarrow> world \<Rightarrow> bool result" where
  "add_student name w =
     (case sqlite3_connect w of (conn, w1) \<Rightarrow>
        (case sql_insert_student name conn of
           (Inl IntegrityError, conn1) \<Rightarrow> (Inr False, abandon conn1 w1)
         | (Inl (OperationalError r), conn1) \<Rightarrow> (Inl (OperationalError r), abandon conn1 w1)
         | (Inl OverflowError, conn1) \<Rightarrow> (Inl OverflowError, abandon conn1 w1)
         | (Inr u, conn1) \<Rightarrow> (Inr True, conn_close conn1 (conn_commit conn1 w1))))"

text \<open>\<^verbatim>\<open>get_students\<close>, lines 47 to 53.\<close>

definition get_students :: "world \<Rightarrow> (int \<times> string) list result" where
  "get_students w =
     (case sqlite3_connect w of (conn, w1) \<Rightarrow>
        (case sql_select_students conn of
           Inl e \<Rightarrow> (Inl e, abandon conn w1)
         | Inr rows \<Rightarrow> (Inr rows, conn_close conn w1)))"

text \<open>\<^verbatim>\<open>delete_student\<close>, lines 56 to 61.\<close>

definition delete_student :: "int \<Rightarrow> world \<Rightarrow> unit result" where
  "delete_student student_id w =
     (case sqlite3_connect w of (conn, w1) \<Rightarrow>
        (case sql_delete_student student_id conn of
           (Inl e, conn1) \<Rightarrow> (Inl e, abandon conn1 w1)
         | (Inr u, conn1) \<Rightarrow> (Inr (), conn_close conn1 (conn_commit conn1 w1))))"

text \<open>\<^verbatim>\<open>add_record\<close>, lines 64 to 70.\<close>

definition add_record :: "int \<Rightarrow> string \<Rightarrow> string \<Rightarrow> world \<Rightarrow> unit result" where
  "add_record student_id date content w =
     (case sqlite3_connect w of (conn, w1) \<Rightarrow>
        (case sql_insert_record student_id date content conn of
           (Inl e, conn1) \<Rightarrow> (Inl e, abandon conn1 w1)
         | (Inr u, conn1) \<Rightarrow> (Inr (), conn_close conn1 (conn_commit conn1 w1))))"

text \<open>\<^verbatim>\<open>get_records\<close>, lines 73 to 79.\<close>

definition get_records :: "int \<Rightarrow> world \<Rightarrow> (int \<times> string \<times> string) list result" where
  "get_records student_id w =
     (case sqlite3_connect w of (conn, w1) \<Rightarrow>
        (case sql_select_records student_id conn of
           Inl e \<Rightarrow> (Inl e, abandon conn w1)
         | Inr rows \<Rightarrow> (Inr rows, conn_close conn w1)))"

text \<open>\<^verbatim>\<open>delete_record\<close>, lines 82 to 87.\<close>

definition delete_record :: "int \<Rightarrow> world \<Rightarrow> unit result" where
  "delete_record record_id w =
     (case sqlite3_connect w of (conn, w1) \<Rightarrow>
        (case sql_delete_record record_id conn of
           (Inl e, conn1) \<Rightarrow> (Inl e, abandon conn1 w1)
         | (Inr u, conn1) \<Rightarrow> (Inr (), conn_close conn1 (conn_commit conn1 w1))))"

subsection \<open>Sequences of calls\<close>

text \<open>
  The user interface calls the seven functions one after the other, each to its
  end. A history of the store is a list of such calls.
\<close>

datatype call =
    InitDb
  | AddStudent string
  | GetStudents
  | DeleteStudent int
  | AddRecord int string string
  | GetRecords int
  | DeleteRecord int

fun step :: "call \<Rightarrow> world \<Rightarrow> world" where
  "step InitDb w = snd (init_db w)"
| "step (AddStudent name) w = snd (add_student name w)"
| "step GetStudents w = snd (get_students w)"
| "step (DeleteStudent student_id) w = snd (delete_student student_id w)"
| "step (AddRecord student_id date content) w = snd (add_record student_id date content w)"
| "step (GetRecords student_id) w = snd (get_records student_id w)"
| "step (DeleteRecord record_id) w = snd (delete_record record_id w)"

primrec run :: "call list \<Rightarrow> world \<Rightarrow> world" where
  "run [] w = w"
| "run (c # cs) w = run cs (step c w)"

text \<open>Before the first start of the application: no file, no connection, no lock.\<close>

definition fresh :: world where
  "fresh = \<lparr>db_file = no_database, open_conns = 0, write_locked = False\<rparr>"

text \<open>The ids in each table, and the records whose student does not exist.\<close>

definition student_ids :: "world \<Rightarrow> int list" where
  "student_ids w =
     (case students (db_file w) of None \<Rightarrow> [] | Some t \<Rightarrow> map students_id (tbl_rows t))"

definition record_ids :: "world \<Rightarrow> int list" where
  "record_ids w =
     (case records (db_file w) of None \<Rightarrow> [] | Some t \<Rightarrow> map records_id (tbl_rows t))"

definition orphans :: "world \<Rightarrow> record_row list" where
  "orphans w =
     (case records (db_file w) of
        None \<Rightarrow> []
      | Some t \<Rightarrow> filter (\<lambda>r. records_student_id r \<notin> set (student_ids w)) (tbl_rows t))"

text \<open>
  The ids a call assigns are the ids its table holds after the call and did not
  hold before; the ids a history assigns, in the order of the calls.
\<close>

definition new_student_ids :: "call \<Rightarrow> world \<Rightarrow> int list" where
  "new_student_ids c w = filter (\<lambda>i. i \<notin> set (student_ids w)) (student_ids (step c w))"

definition new_record_ids :: "call \<Rightarrow> world \<Rightarrow> int list" where
  "new_record_ids c w = filter (\<lambda>i. i \<notin> set (record_ids w)) (record_ids (step c w))"

primrec assigned_student_ids :: "call list \<Rightarrow> world \<Rightarrow> int list" where
  "assigned_student_ids [] w = []"
| "assigned_student_ids (c # cs) w = new_student_ids c w @ assigned_student_ids cs (step c w)"

primrec assigned_record_ids :: "call list \<Rightarrow> world \<Rightarrow> int list" where
  "assigned_record_ids [] w = []"
| "assigned_record_ids (c # cs) w = new_record_ids c w @ assigned_record_ids cs (step c w)"

subsection \<open>What the engine keeps true of a file\<close>

text \<open>
  A table that exists is one that \<^verbatim>\<open>init_db\<close> made: it carries the constraints
  declared there. Its rows meet what the engine enforces on every connection:
  \<^verbatim>\<open>PRIMARY KEY\<close> (no id twice in a table) and \<^verbatim>\<open>UNIQUE\<close> (no name twice).
\<close>

definition schema_ok :: "database \<Rightarrow> bool" where
  "schema_ok db \<longleftrightarrow>
     (case students db of
        None \<Rightarrow> True
      | Some t \<Rightarrow> tbl_constraints t = students_declared
                 \<and> distinct (map students_id (tbl_rows t))
                 \<and> distinct (map students_name (tbl_rows t)))
     \<and> (case records db of
          None \<Rightarrow> True
        | Some t \<Rightarrow> tbl_constraints t = records_declared
                   \<and> distinct (map records_id (tbl_rows t)))"

text \<open>Both tables exist.\<close>

definition tables_exist :: "database \<Rightarrow> bool" where
  "tables_exist db \<longleftrightarrow> students db \<noteq> None \<and> records db \<noteq> None"

text \<open>
  The two tables are there together or not at all, and a connection that was
  left open holds the write lock only on a file that has them.
\<close>

definition lock_ok :: "world \<Rightarrow> bool" where
  "lock_ok w \<longleftrightarrow>
     (students (db_file w) = None \<longleftrightarrow> records (db_file w) = None)
     \<and> (write_locked w \<longrightarrow> students (db_file w) \<noteq> None)"

text \<open>
  The counter of a table is never behind the ids in the table.
\<close>

definition counters_ok :: "database \<Rightarrow> bool" where
  "counters_ok db \<longleftrightarrow>
     (case students db of
        None \<Rightarrow> True
      | Some t \<Rightarrow> list_all (\<lambda>i. i \<le> tbl_seq t) (map students_id (tbl_rows t)))
     \<and> (case records db of
          None \<Rightarrow> True
        | Some t \<Rightarrow> list_all (\<lambda>i. i \<le> tbl_seq t) (map records_id (tbl_rows t)))"

subsection \<open>Dates as the specification reads them\<close>

text \<open>
  The source stores and compares a date as text and never reads it as a date.
  The specification speaks of earlier and later \<^verbatim>\<open>YYYY-MM-DD\<close> dates; the
  definitions of this subsection follow the specification's words, to compare
  them with the order of the text: four digits, a hyphen, two digits, a hyphen,
  two digits, read as year, month and day. No calendar check is made, so every
  calendar date is covered.
\<close>

definition is_digit :: "char \<Rightarrow> bool" where
  "is_digit c \<longleftrightarrow> CHR ''0'' \<le> c \<and> c \<le> CHR ''9''"

definition digit_val :: "char \<Rightarrow> nat" where
  "digit_val c = of_char c - of_char CHR ''0''"

fun decimal :: "string \<Rightarrow> nat" where
  "decimal [] = 0"
| "decimal (c # cs) = digit_val c * 10 ^ length cs + decimal cs"

fun ymd_of :: "string \<Rightarrow> (nat \<times> nat \<times> nat) option" where
  "ymd_of [y1, y2, y3, y4, s1, m1, m2, s2, d1, d2] =
     (if list_all is_digit [y1, y2, y3, y4, m1, m2, d1, d2] \<and> s1 = CHR ''-'' \<and> s2 = CHR ''-''
      then Some (decimal [y1, y2, y3, y4], decimal [m1, m2], decimal [d1, d2])
      else None)"
| "ymd_of _ = None"

fun ymd_less :: "nat \<times> nat \<times> nat \<Rightarrow> nat \<times> nat \<times> nat \<Rightarrow> bool" where
  "ymd_less (y, m, d) (y', m', d') \<longleftrightarrow>
     y < y' \<or> (y = y' \<and> (m < m' \<or> (m = m' \<and> d < d')))"

definition earlier_date :: "string \<Rightarrow> string \<Rightarrow> bool" where
  "earlier_date a b =
     (case (ymd_of a, ymd_of b) of (Some x, Some y) \<Rightarrow> ymd_less x y | _ \<Rightarrow> False)"

subsection \<open>An example store\<close>

text \<open>
  Two students, entered as Zoe and then Amy, and two records of Zoe, the older
  one entered first. The store reached from no file by
  \<^verbatim>\<open>init_db(); add_student("Zoe"); add_student("Amy");
  add_record(1, "2024-01-10", "Late"); add_record(1, "2024-02-05", "Met with parent")\<close>.
\<close>

definition example_students :: "student_row table" where
  "example_students =
     \<lparr>tbl_rows = [\<lparr>students_id = 1, students_name = ''Zoe''\<rparr>,
                  \<lparr>students_id = 2, students_name = ''Amy''\<rparr>],
      tbl_seq = 2,
      tbl_constraints = students_declared\<rparr>"

definition example_records :: "record_row table" where
  "example_records =
     \<lparr>tbl_rows = [\<lparr>records_id = 1, records_student_id = 1,
                    records_date = ''2024-01-10'', records_content = ''Late''\<rparr>,
                  \<lparr>records_id = 2, records_student_id = 1,
                    records_date = ''2024-02-05'', records_content = ''Met with parent''\<rparr>],
      tbl_seq = 2,
      tbl_constraints = records_declared\<rparr>"

definition example_world :: world where
  "example_world =
     run [InitDb, AddStudent ''Zoe'', AddStudent ''Amy'',
          AddRecord 1 ''2024-01-10'' ''Late'', AddRecord 1 ''2024-02-05'' ''Met with parent'']
       fresh"

text \<open>
  A history that goes on from the example store: it deletes Amy, adds Bob,
  deletes the second record, adds a record, adds Amy again.
\<close>

definition example_calls :: "call list" where
  "example_calls =
     [DeleteStudent 2, AddStudent ''Bob'', DeleteRecord 2,
      AddRecord 1 ''2024-03-01'' ''Absent'', AddStudent ''Amy'']"

text \<open>
  The example store after \<^verbatim>\<open>add_student("Amy")\<close> has returned \<^verbatim>\<open>False\<close>: the same
  file, and the connection of that call still open with its write transaction.
\<close>

definition locked_world :: world where
  "locked_world = run [AddStudent ''Amy''] example_world"

section \<open>Basic facts\<close>

lemmas conn_defs = sqlite3_connect_def conn_commit_def conn_close_def abandon_def

lemmas sql_defs =
  new_table_def sql_create_students_def sql_create_records_def
  sql_insert_student_def sql_select_students_def cascade_delete_def
  sql_delete_student_def parent_check_def sql_insert_record_def
  sql_select_records_def sql_delete_record_def

lemmas store_defs =
  init_db_def add_student_def get_students_def delete_student_def add_record_def
  get_records_def delete_record_def

lemmas declared_defs = students_declared_def records_declared_def

lemmas example_defs = example_students_def example_records_def declared_defs

lemma example_world_eq:
  "example_world =
     \<lparr>db_file = \<lparr>students = Some example_students, records = Some example_records\<rparr>,
      open_conns = 0, write_locked = False\<rparr>"
  by (simp add: example_world_def example_defs fresh_def no_database_def
        store_defs sql_defs conn_defs next_rowid_def fits_int64_def)

lemma locked_world_eq:
  "locked_world =
     \<lparr>db_file = \<lparr>students = Some example_students, records = Some example_records\<rparr>,
      open_conns = 1, write_locked = True\<rparr>"
  by (simp add: locked_world_def example_world_eq example_defs add_student_def
        sql_insert_student_def conn_defs)

lemma database_students_same: "students db = Some t \<Longrightarrow> db\<lparr>students := Some t\<rparr> = db"
  by (cases db) simp

lemma database_records_same: "records db = Some t \<Longrightarrow> db\<lparr>records := Some t\<rparr> = db"
  by (cases db) simp

subsection \<open>Row ids\<close>

lemma fold_max_Max: "fold max xs (s::int) = Max (insert s (set xs))"
  using Max.set_eq_fold [of s xs] by simp

lemma next_rowid_gt_seq: "s < next_rowid ids s"
  by (simp add: next_rowid_def)

lemma next_rowid_gt_ids:
  assumes "i \<in> set ids"
  shows "i < next_rowid ids s"
proof (cases ids)
  case Nil
  with assms show ?thesis by simp
next
  case (Cons j js)
  with assms have "i \<le> fold max js j"
    by (simp add: fold_max_Max)
  with Cons show ?thesis
    by (simp add: next_rowid_def)
qed

lemma next_rowid_ne: "x \<in> set xs \<Longrightarrow> next_rowid (map f xs) s = f x \<Longrightarrow> False"
  using next_rowid_gt_ids [of "f x" "map f xs" s] by auto

subsection \<open>Ordering of query results\<close>

lemma order_by_desc_sorted: "sorted_wrt (\<lambda>a b. k b \<le> k a) (order_by_desc k xs)"
proof -
  have "sorted (map k (sort_key k (rev xs)))" by (rule sorted_sort_key)
  then show ?thesis
    by (simp add: order_by_desc_def sorted_wrt_rev sorted_map)
qed

lemma mset_order_by_desc: "mset (order_by_desc k xs) = mset xs"
  by (simp add: order_by_desc_def)

lemma set_order_by_desc: "set (order_by_desc k xs) = set xs"
  by (simp add: order_by_desc_def)


subsection \<open>The order of date texts is the order of the dates\<close>

lemma is_digit_code: "is_digit c \<longleftrightarrow> 48 \<le> (of_char c :: nat) \<and> (of_char c :: nat) \<le> 57"
  by (simp add: is_digit_def less_eq_char_def)

lemma digit_val_code: "digit_val c = of_char c - 48"
  by (simp add: digit_val_def)

lemma digit_val_less: "is_digit x \<Longrightarrow> is_digit y \<Longrightarrow> digit_val x < digit_val y \<longleftrightarrow> x < y"
  unfolding is_digit_code digit_val_code less_char_def by arith

lemma digit_val_eq:
  assumes "is_digit x" and "is_digit y"
  shows "digit_val x = digit_val y \<longleftrightarrow> x = y"
proof
  assume "digit_val x = digit_val y"
  with assms have "(of_char x :: nat) = of_char y"
    unfolding is_digit_code digit_val_code by arith
  then show "x = y" by simp
qed simp

lemma digit_val_le_9: "is_digit c \<Longrightarrow> digit_val c \<le> 9"
  unfolding is_digit_code digit_val_code by arith

lemma decimal_bound: "list_all is_digit cs \<Longrightarrow> decimal cs < 10 ^ length cs"
proof (induction cs)
  case Nil
  then show ?case by simp
next
  case (Cons c cs)
  then have "digit_val c \<le> 9"
    by (simp add: digit_val_le_9)
  then have "digit_val c * 10 ^ length cs \<le> 9 * 10 ^ length cs"
    by (rule mult_le_mono1)
  moreover from Cons have "decimal cs < 10 ^ length cs" by simp
  ultimately have "digit_val c * 10 ^ length cs + decimal cs < 9 * 10 ^ length cs + 10 ^ length cs"
    by (rule add_le_less_mono)
  then show ?case by simp
qed

lemma positional_less:
  fixes p :: nat
  assumes "a < p" and "b < p"
  shows "x * p + a < y * p + b \<longleftrightarrow> x < y \<or> (x = y \<and> a < b)"
proof -
  have lt: "u * p + c < v * p + d" if "u < v" "c < p" for u v c d :: nat
  proof -
    have "u * p + c < Suc u * p" using that by simp
    also have "\<dots> \<le> v * p" using that by (intro mult_le_mono1) simp
    finally show ?thesis by simp
  qed
  consider "x < y" | "x = y" | "y < x" by arith
  then show ?thesis
  proof cases
    case 1
    then show ?thesis using lt [OF 1 assms(1)] by simp
  next
    case 2
    then show ?thesis by simp
  next
    case 3
    then show ?thesis using lt [OF 3 assms(2), of a] by simp
  qed
qed

lemma decimal_less_iff:
  "length xs = length ys \<Longrightarrow> list_all is_digit xs \<Longrightarrow> list_all is_digit ys \<Longrightarrow>
     decimal xs < decimal ys \<longleftrightarrow> xs < ys"
proof (induction xs ys rule: list_induct2)
  case Nil
  then show ?case by simp
next
  case (Cons x xs y ys)
  then have d: "is_digit x" "is_digit y" and ds: "list_all is_digit xs" "list_all is_digit ys"
    by simp_all
  have "decimal xs < 10 ^ length ys" "decimal ys < 10 ^ length ys"
    using decimal_bound [OF ds(1)] decimal_bound [OF ds(2)] Cons.hyps by simp_all
  then have "digit_val x * 10 ^ length ys + decimal xs < digit_val y * 10 ^ length ys + decimal ys
      \<longleftrightarrow> digit_val x < digit_val y \<or> (digit_val x = digit_val y \<and> decimal xs < decimal ys)"
    by (rule positional_less)
  with Cons.hyps Cons.IH [OF ds] show ?case
    by (simp add: digit_val_less [OF d] digit_val_eq [OF d])
qed

lemma decimal_eq_iff:
  "length xs = length ys \<Longrightarrow> list_all is_digit xs \<Longrightarrow> list_all is_digit ys \<Longrightarrow>
     decimal xs = decimal ys \<longleftrightarrow> xs = ys"
  using decimal_less_iff [of xs ys] decimal_less_iff [of ys xs]
  by (metis not_less_iff_gr_or_eq)

lemma earlier_date_less:
  assumes "earlier_date a b"
  shows "a < b"
proof -
  from assms obtain x y where a: "ymd_of a = Some x" and b: "ymd_of b = Some y" and l: "ymd_less x y"
    by (auto simp: earlier_date_def split: option.splits)
  from a obtain y1 y2 y3 y4 m1 m2 d1 d2 where
    a': "a = [y1, y2, y3, y4, CHR ''-'', m1, m2, CHR ''-'', d1, d2]"
        "list_all is_digit [y1, y2, y3, y4]" "list_all is_digit [m1, m2]" "list_all is_digit [d1, d2]"
        "x = (decimal [y1, y2, y3, y4], decimal [m1, m2], decimal [d1, d2])"
    by (auto elim!: ymd_of.elims split: if_splits)
  from b obtain z1 z2 z3 z4 n1 n2 e1 e2 where
    b': "b = [z1, z2, z3, z4, CHR ''-'', n1, n2, CHR ''-'', e1, e2]"
        "list_all is_digit [z1, z2, z3, z4]" "list_all is_digit [n1, n2]" "list_all is_digit [e1, e2]"
        "y = (decimal [z1, z2, z3, z4], decimal [n1, n2], decimal [e1, e2])"
    by (auto elim!: ymd_of.elims split: if_splits)
  have Y: "decimal [y1, y2, y3, y4] < decimal [z1, z2, z3, z4] \<longleftrightarrow> [y1, y2, y3, y4] < [z1, z2, z3, z4]"
          "decimal [y1, y2, y3, y4] = decimal [z1, z2, z3, z4] \<longleftrightarrow> [y1, y2, y3, y4] = [z1, z2, z3, z4]"
    using a'(2) b'(2) by (simp_all only: decimal_less_iff decimal_eq_iff length_Cons list.size)
  have M: "decimal [m1, m2] < decimal [n1, n2] \<longleftrightarrow> [m1, m2] < [n1, n2]"
          "decimal [m1, m2] = decimal [n1, n2] \<longleftrightarrow> [m1, m2] = [n1, n2]"
    using a'(3) b'(3) by (simp_all only: decimal_less_iff decimal_eq_iff length_Cons list.size)
  have D: "decimal [d1, d2] < decimal [e1, e2] \<longleftrightarrow> [d1, d2] < [e1, e2]"
    using a'(4) b'(4) by (simp_all only: decimal_less_iff length_Cons list.size)
  from l have "[y1, y2, y3, y4] < [z1, z2, z3, z4]
      \<or> ([y1, y2, y3, y4] = [z1, z2, z3, z4] \<and> ([m1, m2] < [n1, n2] \<or> ([m1, m2] = [n1, n2] \<and> [d1, d2] < [e1, e2])))"
    unfolding a'(5) b'(5) ymd_less.simps Y M D .
  then show ?thesis
    unfolding a'(1) b'(1) by auto
qed

text \<open>Of two different dates one is the earlier.\<close>

lemma ymd_of_inject:
  assumes "ymd_of a = Some x" and "ymd_of b = Some x"
  shows "a = b"
proof -
  from assms(1) obtain y1 y2 y3 y4 m1 m2 d1 d2 where
    a': "a = [y1, y2, y3, y4, CHR ''-'', m1, m2, CHR ''-'', d1, d2]"
        "list_all is_digit [y1, y2, y3, y4]" "list_all is_digit [m1, m2]" "list_all is_digit [d1, d2]"
        "x = (decimal [y1, y2, y3, y4], decimal [m1, m2], decimal [d1, d2])"
    by (auto elim!: ymd_of.elims split: if_splits)
  from assms(2) obtain z1 z2 z3 z4 n1 n2 e1 e2 where
    b': "b = [z1, z2, z3, z4, CHR ''-'', n1, n2, CHR ''-'', e1, e2]"
        "list_all is_digit [z1, z2, z3, z4]" "list_all is_digit [n1, n2]" "list_all is_digit [e1, e2]"
        "x = (decimal [z1, z2, z3, z4], decimal [n1, n2], decimal [e1, e2])"
    by (auto elim!: ymd_of.elims split: if_splits)
  from a'(5) b'(5) have
    "decimal [y1, y2, y3, y4] = decimal [z1, z2, z3, z4]"
    "decimal [m1, m2] = decimal [n1, n2]"
    "decimal [d1, d2] = decimal [e1, e2]"
    by simp_all
  with a'(2-4) b'(2-4) have
    "[y1, y2, y3, y4] = [z1, z2, z3, z4]" "[m1, m2] = [n1, n2]" "[d1, d2] = [e1, e2]"
    by (simp_all only: decimal_eq_iff length_Cons list.size)
  with a'(1) b'(1) show ?thesis by simp
qed

lemma earlier_date_total:
  assumes "ymd_of a = Some x" and "ymd_of b = Some y" and "a \<noteq> b"
  shows "earlier_date a b \<or> earlier_date b a"
proof -
  from assms have "x \<noteq> y"
    using ymd_of_inject by blast
  then have "ymd_less x y \<or> ymd_less y x"
    by (cases x; cases y) auto
  with assms(1,2) show ?thesis
    by (simp add: earlier_date_def)
qed

subsection \<open>What each call does to each table\<close>

lemma students_step:
  "students (db_file (step c w)) =
     (case c of
        InitDb \<Rightarrow>
          (case students (db_file w) of
             Some t \<Rightarrow> Some t
           | None \<Rightarrow> if write_locked w then None else Some (new_table students_declared))
      | AddStudent name \<Rightarrow>
          (case students (db_file w) of
             None \<Rightarrow> None
           | Some t \<Rightarrow>
               if write_locked w
                  \<or> (Unique ''name'' \<in> set (tbl_constraints t)
                      \<and> name \<in> set (map students_name (tbl_rows t)))
               then Some t
               else Some (t\<lparr>tbl_rows := tbl_rows t @
                            [\<lparr>students_id = next_rowid (map students_id (tbl_rows t)) (tbl_seq t),
                              students_name = name\<rparr>],
                          tbl_seq := next_rowid (map students_id (tbl_rows t)) (tbl_seq t)\<rparr>))
      | DeleteStudent i \<Rightarrow>
          (case students (db_file w) of
             None \<Rightarrow> None
           | Some t \<Rightarrow>
               if \<not> fits_int64 i \<or> write_locked w then Some t
               else Some (t\<lparr>tbl_rows := filter (\<lambda>r. students_id r \<noteq> i) (tbl_rows t)\<rparr>))
      | _ \<Rightarrow> students (db_file w))"
  by (cases c)
     (simp_all add: store_defs sql_defs conn_defs Let_def split: option.splits)

lemma records_step:
  "records (db_file (step c w)) =
     (case c of
        InitDb \<Rightarrow>
          (case records (db_file w) of
             Some t \<Rightarrow> Some t
           | None \<Rightarrow> if write_locked w then None else Some (new_table records_declared))
      | AddRecord student_id date content \<Rightarrow>
          (case records (db_file w) of
             None \<Rightarrow> None
           | Some t \<Rightarrow>
               if write_locked w then Some t
               else Some (t\<lparr>tbl_rows := tbl_rows t @
                            [\<lparr>records_id = next_rowid (map records_id (tbl_rows t)) (tbl_seq t),
                              records_student_id = student_id,
                              records_date = date, records_content = content\<rparr>],
                          tbl_seq := next_rowid (map records_id (tbl_rows t)) (tbl_seq t)\<rparr>))
      | DeleteRecord i \<Rightarrow>
          (case records (db_file w) of
             None \<Rightarrow> None
           | Some t \<Rightarrow>
               if \<not> fits_int64 i \<or> write_locked w then Some t
               else Some (t\<lparr>tbl_rows := filter (\<lambda>r. records_id r \<noteq> i) (tbl_rows t)\<rparr>))
      | _ \<Rightarrow> records (db_file w))"
  by (cases c)
     (simp_all add: store_defs sql_defs conn_defs Let_def split: option.splits)

text \<open>
  The constraints of the schema and the counters hold of no file, and every call
  keeps them: they hold of every store the application can reach.
\<close>

lemma schema_ok_fresh: "schema_ok (db_file fresh)"
  by (simp add: schema_ok_def fresh_def no_database_def)

lemma schema_ok_step: "schema_ok (db_file w) \<Longrightarrow> schema_ok (db_file (step c w))"
  unfolding schema_ok_def students_step records_step
  by (cases c)
     (auto simp: new_table_def declared_defs distinct_map_filter
           dest: next_rowid_ne split: option.splits)

lemma schema_ok_run: "schema_ok (db_file w) \<Longrightarrow> schema_ok (db_file (run cs w))"
  by (induction cs arbitrary: w) (simp_all add: schema_ok_step)

lemma counters_ok_fresh: "counters_ok (db_file fresh)"
  by (simp add: counters_ok_def fresh_def no_database_def)

lemma counters_ok_step: "counters_ok (db_file w) \<Longrightarrow> counters_ok (db_file (step c w))"
  unfolding counters_ok_def students_step records_step
  by (cases c)
     (auto simp: new_table_def list_all_iff
           dest: next_rowid_gt_ids [THEN less_imp_le]
                 order_trans [OF _ next_rowid_gt_seq [THEN less_imp_le]]
           split: option.splits)

lemma counters_ok_run: "counters_ok (db_file w) \<Longrightarrow> counters_ok (db_file (run cs w))"
  by (induction cs arbitrary: w) (simp_all add: counters_ok_step)

section \<open>Deleting a student\<close>

text \<open>
  \<^verbatim>\<open>delete_student\<close> runs on a connection that does not enforce foreign keys, so
  its \<^verbatim>\<open>DELETE\<close> touches the table \<^verbatim>\<open>students\<close> and nothing else.
\<close>

lemma delete_student_records_unchanged:
  "records (db_file (snd (delete_student i w))) = records (db_file w)"
  by (cases "students (db_file w)")
     (simp_all add: delete_student_def sql_delete_student_def conn_defs)

text \<open>
  For the same reason \<^verbatim>\<open>add_record\<close> never looks at the table of students.
\<close>

lemma add_record_unchecked:
  "records (db_file w) = Some rt \<Longrightarrow> \<not> write_locked w \<Longrightarrow>
     fst (add_record i date content w) = Inr ()"
  by (simp add: add_record_def sql_insert_record_def conn_defs Let_def)

text \<open>
  On a connection with \<^verbatim>\<open>PRAGMA foreign_keys = ON\<close> the same statement removes
  the records of the deleted student: the clause of the schema is what the
  specification describes, and only its enforcement is missing.
\<close>

lemma sql_delete_student_enforced:
  assumes "foreign_keys conn" and "\<not> blocked conn" and "fits_int64 i"
    and "students (image conn) = Some st"
    and "i \<in> set (map students_id (tbl_rows st))"
    and "records (image conn) = Some rt"
    and "tbl_constraints rt = records_declared"
  shows "\<exists>conn'. sql_delete_student i conn = (Inr (), conn')
           \<and> records (image conn')
               = Some (rt\<lparr>tbl_rows := filter (\<lambda>r. records_student_id r \<noteq> i) (tbl_rows rt)\<rparr>)"
  using assms by (simp add: sql_delete_student_def cascade_delete_def records_declared_def)

text \<open>
  \<^bold>\<open>C1.\<close> The specification: after \<^verbatim>\<open>deleteStudent(S.id)\<close>, \<^verbatim>\<open>listRecords(S.id)\<close> is
  empty and \<^verbatim>\<open>listStudents()\<close> no longer contains S. The source, on the example
  store and Zoe (id 1): Zoe leaves the list of students, and \<^verbatim>\<open>get_records(1)\<close>
  returns her two records as before the deletion.
\<close>

theorem delete_student_keeps_records:
  "fst (get_records 1 example_world)
     = Inr [(2, ''2024-02-05'', ''Met with parent''), (1, ''2024-01-10'', ''Late'')]
   \<and> fst (delete_student 1 example_world) = Inr ()
   \<and> fst (get_students (snd (delete_student 1 example_world))) = Inr [(2, ''Amy'')]
   \<and> fst (get_records 1 (snd (delete_student 1 example_world)))
       = Inr [(2, ''2024-02-05'', ''Met with parent''), (1, ''2024-01-10'', ''Late'')]"
  by (simp add: example_world_eq example_defs store_defs sql_defs conn_defs order_by_desc_def
        fits_int64_def)

section \<open>Records without a student\<close>

text \<open>
  \<^bold>\<open>C2.\<close> The specification: no record ever refers to a student that does not
  exist, and \<^verbatim>\<open>addRecord\<close> for an unknown student is rejected. The source: the
  example store has no such record, and has two after \<^verbatim>\<open>delete_student(1)\<close>; on
  the store with no student at all, \<^verbatim>\<open>add_record(7, "2024-03-01", "x")\<close> returns
  normally and leaves a record of the student 7.
\<close>

theorem orphan_records_arise:
  "orphans example_world = []
   \<and> orphans (snd (delete_student 1 example_world)) = tbl_rows example_records
   \<and> student_ids (run [InitDb] fresh) = []
   \<and> fst (add_record 7 ''2024-03-01'' ''x'' (run [InitDb] fresh)) = Inr ()
   \<and> orphans (snd (add_record 7 ''2024-03-01'' ''x'' (run [InitDb] fresh)))
       = [\<lparr>records_id = 1, records_student_id = 7,
            records_date = ''2024-03-01'', records_content = ''x''\<rparr>]"
  by (simp add: example_world_eq example_defs orphans_def student_ids_def fresh_def
        no_database_def store_defs sql_defs conn_defs next_rowid_def fits_int64_def)

section \<open>Adding a student twice\<close>

text \<open>A name that is not in the table is added, and the call returns \<^verbatim>\<open>True\<close>.\<close>

lemma add_student_new_name:
  assumes "students (db_file w) = Some t"
    and "name \<notin> set (map students_name (tbl_rows t))"
    and "\<not> write_locked w"
  shows "fst (add_student name w) = Inr True
       \<and> (\<exists>t'. students (db_file (snd (add_student name w))) = Some t'
                \<and> name \<in> set (map students_name (tbl_rows t')))"
  using assms by (simp add: add_student_def sql_insert_student_def conn_defs Let_def)

text \<open>
  A name that is in a table with the \<^verbatim>\<open>UNIQUE\<close> constraint: the call returns
  \<^verbatim>\<open>False\<close> and leaves its connection open, in its write transaction.
\<close>

lemma add_student_taken:
  assumes "students (db_file w) = Some t"
    and "Unique ''name'' \<in> set (tbl_constraints t)"
    and "name \<in> set (map students_name (tbl_rows t))"
    and "\<not> write_locked w"
  shows "add_student name w
           = (Inr False, w\<lparr>open_conns := open_conns w + 1, write_locked := True\<rparr>)"
  using assms by (simp add: add_student_def sql_insert_student_def conn_defs)

text \<open>
  While a connection that was left open holds the write lock, no call can write:
  each of the four writing functions raises \<^verbatim>\<open>OperationalError\<close>, whatever its
  arguments, when its table exists and its id can be bound.
\<close>

lemma add_student_locked:
  "students (db_file w) = Some t \<Longrightarrow> write_locked w \<Longrightarrow>
     fst (add_student name w) = Inl (OperationalError DatabaseLocked)"
  by (simp add: add_student_def sql_insert_student_def conn_defs)

lemma add_record_locked:
  "records (db_file w) = Some t \<Longrightarrow> write_locked w \<Longrightarrow>
     fst (add_record i date content w) = Inl (OperationalError DatabaseLocked)"
  by (simp add: add_record_def sql_insert_record_def conn_defs)

lemma delete_student_locked:
  "students (db_file w) = Some t \<Longrightarrow> fits_int64 i \<Longrightarrow> write_locked w \<Longrightarrow>
     fst (delete_student i w) = Inl (OperationalError DatabaseLocked)"
  by (simp add: delete_student_def sql_delete_student_def conn_defs)

lemma delete_record_locked:
  "records (db_file w) = Some t \<Longrightarrow> fits_int64 i \<Longrightarrow> write_locked w \<Longrightarrow>
     fst (delete_record i w) = Inl (OperationalError DatabaseLocked)"
  by (simp add: delete_record_def sql_delete_record_def conn_defs)




section \<open>Listing the students\<close>

text \<open>
  \<^bold>\<open>C4.\<close> Whatever the rows of the table and their order, \<^verbatim>\<open>get_students\<close>
  returns the \<^verbatim>\<open>(id, name)\<close> pair of every row, each as often as the table has
  it, in rising order of the names.
\<close>

theorem get_students_sorted:
  assumes "students (db_file w) = Some t"
  shows "\<exists>rows. fst (get_students w) = Inr rows
           \<and> mset rows = mset (map (\<lambda>r. (students_id r, students_name r)) (tbl_rows t))
           \<and> sorted (map snd rows)"
proof -
  have "map snd (map (\<lambda>r. (students_id r, students_name r)) (sort_key students_name (tbl_rows t)))
          = map students_name (sort_key students_name (tbl_rows t))"
    by simp
  then show ?thesis using assms
    by (simp add: get_students_def sql_select_students_def conn_defs del: map_map)
qed

theorem get_students_sorted_witness:
  "students (db_file example_world) = Some example_students
   \<and> fst (get_students example_world) = Inr [(2, ''Amy''), (1, ''Zoe'')]
   \<and> (\<exists>rows. fst (get_students example_world) = Inr rows
             \<and> mset rows = mset (map (\<lambda>r. (students_id r, students_name r))
                                   (tbl_rows example_students))
             \<and> sorted (map snd rows))"
proof -
  have h: "students (db_file example_world) = Some example_students"
    by (simp add: example_world_eq)
  have e: "fst (get_students example_world) = Inr [(2, ''Amy''), (1, ''Zoe'')]"
    by (simp add: example_world_eq example_defs get_students_def sql_select_students_def conn_defs)
  from h e get_students_sorted [OF h] show ?thesis
    by blast
qed

section \<open>Listing the records of a student\<close>

text \<open>
  \<^bold>\<open>C5.\<close> \<^verbatim>\<open>get_records\<close> returns the records of the student, each once per row,
  and wherever two of them carry \<^verbatim>\<open>YYYY-MM-DD\<close> dates of which one is later, the
  record of the later date stands before the record of the earlier one.
\<close>

theorem get_records_date_desc:
  assumes "records (db_file w) = Some t"
  shows "\<exists>rows. fst (get_records student_id w) = Inr rows
           \<and> mset rows = mset (map (\<lambda>r. (records_id r, records_date r, records_content r))
                                 (filter (\<lambda>r. records_student_id r = student_id) (tbl_rows t)))
           \<and> (\<forall>i j. i < length rows \<and> j < length rows
                   \<and> earlier_date (fst (snd (rows ! j))) (fst (snd (rows ! i))) \<longrightarrow> i < j)"
proof -
  define xs where
    "xs = order_by_desc records_date (filter (\<lambda>r. records_student_id r = student_id) (tbl_rows t))"
  define rows where "rows = map (\<lambda>r. (records_id r, records_date r, records_content r)) xs"
  have r: "fst (get_records student_id w) = Inr rows"
    using assms by (simp add: get_records_def sql_select_records_def conn_defs rows_def xs_def)
  have m: "mset rows = mset (map (\<lambda>r. (records_id r, records_date r, records_content r))
                                 (filter (\<lambda>r. records_student_id r = student_id) (tbl_rows t)))"
    unfolding rows_def xs_def by (simp add: mset_order_by_desc)
  have s: "sorted_wrt (\<lambda>a b. records_date b \<le> records_date a) xs"
    unfolding xs_def by (rule order_by_desc_sorted)
  have o: "i < j" if "i < length rows" "j < length rows"
    "earlier_date (fst (snd (rows ! j))) (fst (snd (rows ! i)))" for i j
  proof (rule ccontr)
    assume "\<not> i < j"
    from that have lt: "records_date (xs ! j) < records_date (xs ! i)"
      by (simp add: rows_def earlier_date_less)
    then have "i \<noteq> j" by auto
    with \<open>\<not> i < j\<close> have "j < i" by simp
    with s that(1) have "records_date (xs ! i) \<le> records_date (xs ! j)"
      by (simp add: sorted_wrt_iff_nth_less rows_def)
    with lt show False by simp
  qed
  from r m o show ?thesis by blast
qed

theorem get_records_date_desc_witness:
  "records (db_file example_world) = Some example_records
   \<and> fst (get_records 1 example_world)
       = Inr [(2, ''2024-02-05'', ''Met with parent''), (1, ''2024-01-10'', ''Late'')]
   \<and> earlier_date ''2024-01-10'' ''2024-02-05''
   \<and> (\<exists>rows. fst (get_records 1 example_world) = Inr rows
             \<and> (0::nat) < length rows \<and> (1::nat) < length rows
             \<and> earlier_date (fst (snd (rows ! 1))) (fst (snd (rows ! 0))))"
proof -
  have h: "records (db_file example_world) = Some example_records"
    by (simp add: example_world_eq)
  have e: "fst (get_records 1 example_world)
       = Inr [(2, ''2024-02-05'', ''Met with parent''), (1, ''2024-01-10'', ''Late'')]"
    by (simp add: example_world_eq example_defs get_records_def sql_select_records_def
          conn_defs order_by_desc_def)
  have d: "earlier_date ''2024-01-10'' ''2024-02-05''"
    by (simp add: earlier_date_def is_digit_code digit_val_code)
  from get_records_date_desc [OF h, of 1] obtain rows where
    rows: "fst (get_records 1 example_world) = Inr rows"
    by blast
  with e have "rows = [(2, ''2024-02-05'', ''Met with parent''), (1, ''2024-01-10'', ''Late'')]"
    by simp
  with d have "(0::nat) < length rows \<and> (1::nat) < length rows
             \<and> earlier_date (fst (snd (rows ! 1))) (fst (snd (rows ! 0)))"
    by simp
  with h e d rows show ?thesis by blast
qed

section \<open>Adding a record\<close>

text \<open>
  \<^bold>\<open>C6.\<close> For a student of the table: whenever \<^verbatim>\<open>add_record\<close> returns normally,
  \<^verbatim>\<open>get_records\<close> for that student then has a tuple with this very date and this
  very content; and \<^verbatim>\<open>add_record\<close> does return normally when no connection that
  was left open holds the write lock.
\<close>

theorem add_record_round_trip:
  assumes "students (db_file w) = Some st"
    and "student_id \<in> set (map students_id (tbl_rows st))"
    and "records (db_file w) = Some rt"
  shows "(\<not> write_locked w \<longrightarrow> fst (add_record student_id date content w) = Inr ())
       \<and> (fst (add_record student_id date content w) = Inr () \<longrightarrow>
            (\<exists>rows i. fst (get_records student_id (snd (add_record student_id date content w)))
                         = Inr rows
                       \<and> (i, date, content) \<in> set rows))"
proof (intro conjI impI)
  assume "\<not> write_locked w"
  with assms(3) show "fst (add_record student_id date content w) = Inr ()"
    by (rule add_record_unchecked)
next
  assume ok: "fst (add_record student_id date content w) = Inr ()"
  have unlocked: "\<not> write_locked w"
  proof
    assume "write_locked w"
    with assms(3) have "fst (add_record student_id date content w)
                          = Inl (OperationalError DatabaseLocked)"
      by (rule add_record_locked)
    with ok show False by simp
  qed
  define i where "i = next_rowid (map records_id (tbl_rows rt)) (tbl_seq rt)"
  define r where "r = \<lparr>records_id = i, records_student_id = student_id,
                         records_date = date, records_content = content\<rparr>"
  define w' where
    "w' = w\<lparr>db_file := (db_file w)\<lparr>records := Some (rt\<lparr>tbl_rows := tbl_rows rt @ [r],
                                                           tbl_seq := i\<rparr>)\<rparr>\<rparr>"
  define rows where
    "rows = map (\<lambda>r. (records_id r, records_date r, records_content r))
              (order_by_desc records_date
                 (filter (\<lambda>r. records_student_id r = student_id) (tbl_rows rt @ [r])))"
  have a: "add_record student_id date content w = (Inr (), w')"
    using assms(3) unlocked
    by (simp add: add_record_def sql_insert_record_def conn_defs Let_def i_def r_def w'_def)
  have g: "fst (get_records student_id w') = Inr rows"
    by (simp add: get_records_def sql_select_records_def conn_defs w'_def rows_def)
  have "r \<in> set (order_by_desc records_date
                      (filter (\<lambda>r. records_student_id r = student_id) (tbl_rows rt @ [r])))"
    by (simp add: set_order_by_desc r_def)
  then have mem: "(i, date, content) \<in> set rows"
    unfolding rows_def set_map by (rule rev_image_eqI) (simp add: r_def)
  show "\<exists>rows i. fst (get_records student_id (snd (add_record student_id date content w)))
                    = Inr rows
                  \<and> (i, date, content) \<in> set rows"
    unfolding a by (intro exI [of _ rows] exI [of _ i]) (simp add: g mem)
qed

theorem add_record_round_trip_witness:
  "students (db_file example_world) = Some example_students
   \<and> 2 \<in> set (map students_id (tbl_rows example_students))
   \<and> records (db_file example_world) = Some example_records
   \<and> \<not> write_locked example_world
   \<and> fst (add_record 2 ''2024-03-01'' ''Met with parent'' example_world) = Inr ()
   \<and> (\<exists>rows i. fst (get_records 2 (snd (add_record 2 ''2024-03-01'' ''Met with parent''
                                           example_world))) = Inr rows
               \<and> (i, ''2024-03-01'', ''Met with parent'') \<in> set rows)"
proof -
  have h1: "students (db_file example_world) = Some example_students"
    by (simp add: example_world_eq)
  have h2: "2 \<in> set (map students_id (tbl_rows example_students))"
    by (simp add: example_defs)
  have h3: "records (db_file example_world) = Some example_records"
    by (simp add: example_world_eq)
  have h4: "\<not> write_locked example_world"
    by (simp add: example_world_eq)
  from h1 h2 h3 h4 add_record_round_trip [OF h1 h2 h3, of "''2024-03-01''" "''Met with parent''"]
  show ?thesis by blast
qed

section \<open>Deleting what is not there\<close>

text \<open>
  \<^bold>\<open>C7.\<close> The specification: for every id that the table does not have,
  \<^verbatim>\<open>deleteStudent\<close> and \<^verbatim>\<open>deleteRecord\<close> do not raise and change nothing. The
  source raises for two such ids. The integer \<open>2^63\<close> is the id of no student of
  the example store, and \<^verbatim>\<open>delete_student\<close> raises \<^verbatim>\<open>OverflowError\<close> when it binds
  it. In \<open>locked_world\<close> no record has the id 9, and \<^verbatim>\<open>delete_record(9)\<close> raises
  \<^verbatim>\<open>OperationalError\<close>, as the file is locked.
\<close>

theorem delete_absent_raises:
  "students (db_file example_world) = Some example_students
   \<and> 9223372036854775808 \<notin> set (map students_id (tbl_rows example_students))
   \<and> fst (delete_student 9223372036854775808 example_world) = Inl OverflowError
   \<and> records (db_file locked_world) = Some example_records
   \<and> 9 \<notin> set (map records_id (tbl_rows example_records))
   \<and> fst (delete_record 9 locked_world) = Inl (OperationalError DatabaseLocked)"
  by (simp add: example_world_eq locked_world_eq example_defs delete_student_def
        delete_record_def sql_delete_student_def sql_delete_record_def conn_defs fits_int64_def)

text \<open>
  \<^bold>\<open>C7\<close>, as amended. For a signed 64-bit id that no row of the table has, and
  while no connection that was left open holds the write lock, \<^verbatim>\<open>delete_student\<close>
  and \<^verbatim>\<open>delete_record\<close> return normally and leave the world as it was: every
  student, every record, both counters, no connection open that was not.
\<close>

theorem delete_absent_noop:
  "(students (db_file w) = Some st \<and> i \<notin> set (map students_id (tbl_rows st))
      \<and> fits_int64 i \<and> \<not> write_locked w
      \<longrightarrow> delete_student i w = (Inr (), w))
   \<and> (records (db_file w) = Some rt \<and> j \<notin> set (map records_id (tbl_rows rt))
      \<and> fits_int64 j \<and> \<not> write_locked w
      \<longrightarrow> delete_record j w = (Inr (), w))"
proof (intro conjI impI; elim conjE)
  assume t: "students (db_file w) = Some st" and "i \<notin> set (map students_id (tbl_rows st))"
    and b: "fits_int64 i" "\<not> write_locked w"
  then have "filter (\<lambda>r. students_id r \<noteq> i) (tbl_rows st) = tbl_rows st"
    by (auto simp: filter_id_conv)
  with t b show "delete_student i w = (Inr (), w)"
    by (simp add: delete_student_def sql_delete_student_def conn_defs database_students_same)
next
  assume t: "records (db_file w) = Some rt" and "j \<notin> set (map records_id (tbl_rows rt))"
    and b: "fits_int64 j" "\<not> write_locked w"
  then have "filter (\<lambda>r. records_id r \<noteq> j) (tbl_rows rt) = tbl_rows rt"
    by (auto simp: filter_id_conv)
  with t b show "delete_record j w = (Inr (), w)"
    by (simp add: delete_record_def sql_delete_record_def conn_defs database_records_same)
qed

theorem delete_absent_noop_witness:
  "students (db_file example_world) = Some example_students
   \<and> 9 \<notin> set (map students_id (tbl_rows example_students))
   \<and> fits_int64 9
   \<and> \<not> write_locked example_world
   \<and> delete_student 9 example_world = (Inr (), example_world)
   \<and> records (db_file example_world) = Some example_records
   \<and> 9 \<notin> set (map records_id (tbl_rows example_records))
   \<and> delete_record 9 example_world = (Inr (), example_world)"
proof -
  have h1: "students (db_file example_world) = Some example_students"
    and h2: "records (db_file example_world) = Some example_records"
    and h5: "\<not> write_locked example_world"
    by (simp_all add: example_world_eq)
  have h3: "9 \<notin> set (map students_id (tbl_rows example_students))"
    and h4: "9 \<notin> set (map records_id (tbl_rows example_records))"
    and h6: "fits_int64 9"
    by (simp_all add: example_defs fits_int64_def)
  from delete_absent_noop [of example_world example_students 9 example_records 9]
    h1 h2 h3 h4 h5 h6
  show ?thesis by blast
qed

section \<open>Starting the application again\<close>

text \<open>
  \<^verbatim>\<open>init_db\<close> writes only to create a table that is missing. It returns normally
  when both tables exist, and when no connection that was left open holds the
  write lock.
\<close>

lemma init_db_eq:
  assumes "tables_exist (db_file w) \<or> \<not> write_locked w"
  shows "init_db w =
     (Inr (),
      w\<lparr>db_file :=
          \<lparr>students = Some (case students (db_file w) of
                             None \<Rightarrow> new_table students_declared | Some t \<Rightarrow> t),
           records = Some (case records (db_file w) of
                            None \<Rightarrow> new_table records_declared | Some t \<Rightarrow> t)\<rparr>\<rparr>)"
  using assms
  by (cases w; cases "db_file w")
     (auto simp: init_db_def sql_create_students_def sql_create_records_def conn_defs
        tables_exist_def split: option.splits)

lemma init_db_tables_exist:
  "tables_exist (db_file w) \<or> \<not> write_locked w \<Longrightarrow> tables_exist (db_file (snd (init_db w)))"
  by (simp add: init_db_eq tables_exist_def)

lemma init_db_twice:
  assumes "tables_exist (db_file w) \<or> \<not> write_locked w"
  shows "snd (init_db (snd (init_db w))) = snd (init_db w)"
proof -
  from assms have "tables_exist (db_file (snd (init_db w)))"
    by (rule init_db_tables_exist)
  then have "init_db (snd (init_db w))
      = (Inr (),
         (snd (init_db w))\<lparr>db_file :=
           \<lparr>students = Some (case students (db_file (snd (init_db w))) of
                              None \<Rightarrow> new_table students_declared | Some t \<Rightarrow> t),
            records = Some (case records (db_file (snd (init_db w))) of
                             None \<Rightarrow> new_table records_declared | Some t \<Rightarrow> t)\<rparr>\<rparr>)"
    by (intro init_db_eq) simp
  then show ?thesis
    by (simp add: init_db_eq [OF assms])
qed

lemma init_db_funpow:
  "tables_exist (db_file w) \<or> \<not> write_locked w \<Longrightarrow>
     ((snd \<circ> init_db) ^^ Suc n) w = snd (init_db w)"
  by (induction n) (simp_all add: init_db_twice)

lemma init_db_schema_ok:
  assumes "tables_exist (db_file w) \<or> \<not> write_locked w" and "schema_ok (db_file w)"
  shows "schema_ok (db_file (snd (init_db w)))"
  using assms(2)
  by (auto simp: init_db_eq [OF assms(1)] schema_ok_def new_table_def split: option.splits)

text \<open>
  Every store that the application reaches from no file has both tables, or no
  lock on it: there \<^verbatim>\<open>init_db\<close> returns normally.
\<close>

lemma write_locked_step:
  "write_locked (step c w) \<Longrightarrow> write_locked w \<or> students (db_file w) \<noteq> None"
  by (cases c)
     (auto simp: store_defs sql_defs conn_defs Let_def split: option.splits if_splits)

lemma lock_ok_fresh: "lock_ok fresh"
  by (simp add: lock_ok_def fresh_def no_database_def)

lemma lock_ok_step: "lock_ok w \<Longrightarrow> lock_ok (step c w)"
  unfolding lock_ok_def students_step records_step
  using write_locked_step [of c w]
  by (cases c) (auto split: option.splits if_splits)

lemma lock_ok_run: "lock_ok w \<Longrightarrow> lock_ok (run cs w)"
  by (induction cs arbitrary: w) (simp_all add: lock_ok_step)

lemma init_db_ready:
  "tables_exist (db_file (run cs fresh)) \<or> \<not> write_locked (run cs fresh)"
  using lock_ok_run [OF lock_ok_fresh, of cs]
  by (auto simp: lock_ok_def tables_exist_def)

text \<open>
  \<^bold>\<open>C8.\<close> For a store whose two tables exist, or on which no connection that
  was left open holds the write lock: \<^verbatim>\<open>init_db\<close> returns normally. After one
  call or more, each table exists: a table that was there has the rows, the
  counter and the constraints it had, a table that was not there is empty and
  has the constraints that \<^verbatim>\<open>init_db\<close> declares. Any number of calls leave the
  world that one call leaves, and no connection stays open. Where the tables
  that were there are those of \<^verbatim>\<open>init_db\<close>, with rows that meet \<^verbatim>\<open>PRIMARY KEY\<close> and
  \<^verbatim>\<open>UNIQUE\<close>, the same is true afterwards, of both tables: the students table
  has \<^verbatim>\<open>UNIQUE\<close> on the name, the records table has the foreign key with
  \<^verbatim>\<open>ON DELETE CASCADE\<close> (declared; no connection of the source enforces it), and,
  the lock being free, \<^verbatim>\<open>add_student\<close> of a name that is in the table returns
  \<^verbatim>\<open>False\<close>.
\<close>

theorem init_db_idempotent:
  assumes "tables_exist (db_file w) \<or> \<not> write_locked w"
  shows "fst (init_db w) = Inr ()
   \<and> students (db_file (((snd \<circ> init_db) ^^ Suc n) w))
       = Some (case students (db_file w) of
                 None \<Rightarrow> new_table students_declared | Some t \<Rightarrow> t)
   \<and> records (db_file (((snd \<circ> init_db) ^^ Suc n) w))
       = Some (case records (db_file w) of
                 None \<Rightarrow> new_table records_declared | Some t \<Rightarrow> t)
   \<and> ((snd \<circ> init_db) ^^ Suc n) w = snd (init_db w)
   \<and> open_conns (snd (init_db w)) = open_conns w
   \<and> (schema_ok (db_file w) \<longrightarrow>
        schema_ok (db_file (snd (init_db w)))
        \<and> (\<exists>st rt. students (db_file (snd (init_db w))) = Some st
                   \<and> tbl_constraints st = [Unique ''name'']
                   \<and> records (db_file (snd (init_db w))) = Some rt
                   \<and> tbl_constraints rt = [ForeignKeyCascade ''student_id'' ''students'' ''id'']
                   \<and> (\<forall>name. name \<in> set (map students_name (tbl_rows st))
                               \<and> \<not> write_locked w
                         \<longrightarrow> fst (add_student name (snd (init_db w))) = Inr False)))"
proof -
  have f: "((snd \<circ> init_db) ^^ Suc n) w = snd (init_db w)"
    using assms by (rule init_db_funpow)
  have r: "fst (init_db w) = Inr ()"
    and s: "students (db_file (snd (init_db w)))
           = Some (case students (db_file w) of
                     None \<Rightarrow> new_table students_declared | Some t \<Rightarrow> t)"
    and c: "records (db_file (snd (init_db w)))
           = Some (case records (db_file w) of
                     None \<Rightarrow> new_table records_declared | Some t \<Rightarrow> t)"
    and o: "open_conns (snd (init_db w)) = open_conns w"
    and l: "write_locked (snd (init_db w)) = write_locked w"
    by (simp_all add: init_db_eq [OF assms])
  have k: "schema_ok (db_file (snd (init_db w)))
        \<and> (\<exists>st rt. students (db_file (snd (init_db w))) = Some st
                   \<and> tbl_constraints st = [Unique ''name'']
                   \<and> records (db_file (snd (init_db w))) = Some rt
                   \<and> tbl_constraints rt = [ForeignKeyCascade ''student_id'' ''students'' ''id'']
                   \<and> (\<forall>name. name \<in> set (map students_name (tbl_rows st))
                               \<and> \<not> write_locked w
                         \<longrightarrow> fst (add_student name (snd (init_db w))) = Inr False))"
    if ok: "schema_ok (db_file w)"
  proof -
    have ok': "schema_ok (db_file (snd (init_db w)))"
      using assms ok by (rule init_db_schema_ok)
    from s obtain st where st: "students (db_file (snd (init_db w))) = Some st" by blast
    from c obtain rt where rt: "records (db_file (snd (init_db w))) = Some rt" by blast
    from ok' st rt have cs: "tbl_constraints st = [Unique ''name'']"
      "tbl_constraints rt = [ForeignKeyCascade ''student_id'' ''students'' ''id'']"
      by (simp_all add: schema_ok_def declared_defs)
    have "fst (add_student name (snd (init_db w))) = Inr False"
      if "name \<in> set (map students_name (tbl_rows st))" "\<not> write_locked w" for name
      using add_student_taken [OF st _ that(1)] cs(1) that(2) l by simp
    with ok' st rt cs show ?thesis by blast
  qed
  from f r s c o k show ?thesis
    by (simp only: simp_thms) blast
qed

theorem init_db_idempotent_witness:
  "(tables_exist (db_file fresh) \<or> \<not> write_locked fresh)
   \<and> fst (init_db fresh) = Inr ()
   \<and> students (db_file (((snd \<circ> init_db) ^^ Suc 2) fresh)) = Some (new_table students_declared)
   \<and> records (db_file (((snd \<circ> init_db) ^^ Suc 2) fresh)) = Some (new_table records_declared)
   \<and> (tables_exist (db_file example_world) \<or> \<not> write_locked example_world)
   \<and> schema_ok (db_file example_world)
   \<and> students (db_file (((snd \<circ> init_db) ^^ Suc 2) example_world)) = Some example_students
   \<and> records (db_file (((snd \<circ> init_db) ^^ Suc 2) example_world)) = Some example_records
   \<and> ''Amy'' \<in> set (map students_name (tbl_rows example_students))
   \<and> \<not> write_locked example_world
   \<and> fst (add_student ''Amy'' (snd (init_db example_world))) = Inr False"
proof -
  have h1: "tables_exist (db_file fresh) \<or> \<not> write_locked fresh"
    by (simp add: fresh_def)
  have h2: "tables_exist (db_file example_world) \<or> \<not> write_locked example_world"
    and h3: "schema_ok (db_file example_world)"
    and h4: "''Amy'' \<in> set (map students_name (tbl_rows example_students))"
    and h5: "\<not> write_locked example_world"
    and e: "students (db_file example_world) = Some example_students"
      "records (db_file example_world) = Some example_records"
    by (simp_all add: example_world_eq example_defs schema_ok_def tables_exist_def)
  have n: "students (db_file fresh) = None" "records (db_file fresh) = None"
    by (simp_all add: fresh_def no_database_def)
  note t1 = init_db_idempotent [OF h1, of 2, unfolded n option.case]
  note t2 = init_db_idempotent [OF h2, of 2, unfolded e option.case]
  from t1 have a: "fst (init_db fresh) = Inr ()"
    "students (db_file (((snd \<circ> init_db) ^^ Suc 2) fresh)) = Some (new_table students_declared)"
    "records (db_file (((snd \<circ> init_db) ^^ Suc 2) fresh)) = Some (new_table records_declared)"
    by blast+
  from t2 have b: "students (db_file (((snd \<circ> init_db) ^^ Suc 2) example_world)) = Some example_students"
    "records (db_file (((snd \<circ> init_db) ^^ Suc 2) example_world)) = Some example_records"
    and eq: "((snd \<circ> init_db) ^^ Suc 2) example_world = snd (init_db example_world)"
    by blast+
  from b(1) have st: "students (db_file (snd (init_db example_world))) = Some example_students"
    by (simp only: eq)
  from t2 h3 obtain st' where
    "students (db_file (snd (init_db example_world))) = Some st'"
    "\<forall>name. name \<in> set (map students_name (tbl_rows st')) \<and> \<not> write_locked example_world
         \<longrightarrow> fst (add_student name (snd (init_db example_world))) = Inr False"
    by blast
  with st h4 h5 have c: "fst (add_student ''Amy'' (snd (init_db example_world))) = Inr False"
    by auto
  from h1 h2 h3 h4 h5 a b c show ?thesis by blast
qed

section \<open>Connections left open\<close>

text \<open>
  \<^bold>\<open>C9.\<close> The specification: every operation closes its connection on every
  way out, \<^verbatim>\<open>addStudent\<close> also when the name is taken. The source: no connection
  is open in the example store; \<^verbatim>\<open>add_student("Amy")\<close> returns \<^verbatim>\<open>False\<close> from the
  handler, and the connection it opened has not been closed and holds the write
  lock.
\<close>

theorem failed_add_leaves_connection_open:
  "open_conns example_world = 0
   \<and> add_student ''Amy'' example_world
       = (Inr False, example_world\<lparr>open_conns := 1, write_locked := True\<rparr>)"
  by (simp add: example_world_eq example_defs add_student_def sql_insert_student_def conn_defs)

lemma add_student_taken_open_conns:
  assumes "students (db_file w) = Some t"
    and "Unique ''name'' \<in> set (tbl_constraints t)"
    and "name \<in> set (map students_name (tbl_rows t))"
    and "\<not> write_locked w"
  shows "open_conns (snd (add_student name w)) = open_conns w + 1"
  using assms by (simp add: add_student_taken)

lemma add_student_new_open_conns:
  assumes "students (db_file w) = Some t"
    and "name \<notin> set (map students_name (tbl_rows t))"
    and "\<not> write_locked w"
  shows "open_conns (snd (add_student name w)) = open_conns w"
  using assms by (simp add: add_student_def sql_insert_student_def conn_defs Let_def)

section \<open>Ids are not used twice\<close>

text \<open>
  A call assigns ids to its table only above the counter the table had before the
  call, and leaves the counter at or above every id it assigned.
\<close>

lemma new_student_ids_none:
  "students (db_file w) = None \<Longrightarrow> new_student_ids c w = []"
  unfolding new_student_ids_def student_ids_def students_step
  by (cases c) (simp_all add: new_table_def)

lemma new_student_ids_some:
  assumes "students (db_file w) = Some t"
  shows "\<exists>t'. students (db_file (step c w)) = Some t' \<and> tbl_seq t \<le> tbl_seq t'
           \<and> (\<forall>i\<in>set (new_student_ids c w). tbl_seq t < i \<and> i \<le> tbl_seq t')
           \<and> sorted_wrt (<) (new_student_ids c w)"
  using assms unfolding new_student_ids_def student_ids_def students_step
  by (cases c)
     (auto simp: new_table_def next_rowid_gt_seq less_imp_le filter_empty_conv)

lemma new_record_ids_none:
  "records (db_file w) = None \<Longrightarrow> new_record_ids c w = []"
  unfolding new_record_ids_def record_ids_def records_step
  by (cases c) (simp_all add: new_table_def)

lemma new_record_ids_some:
  assumes "records (db_file w) = Some t"
  shows "\<exists>t'. records (db_file (step c w)) = Some t' \<and> tbl_seq t \<le> tbl_seq t'
           \<and> (\<forall>i\<in>set (new_record_ids c w). tbl_seq t < i \<and> i \<le> tbl_seq t')
           \<and> sorted_wrt (<) (new_record_ids c w)"
  using assms unfolding new_record_ids_def record_ids_def records_step
  by (cases c)
     (auto simp: new_table_def next_rowid_gt_seq less_imp_le filter_empty_conv)

lemma assigned_student_ids_increasing:
  "sorted_wrt (<) (assigned_student_ids cs w)
   \<and> (\<forall>t. students (db_file w) = Some t
          \<longrightarrow> (\<forall>i\<in>set (assigned_student_ids cs w). tbl_seq t < i))"
proof (induction cs arbitrary: w)
  case Nil
  then show ?case by simp
next
  case (Cons c cs)
  show ?case
  proof (cases "students (db_file w)")
    case None
    then show ?thesis using Cons [of "step c w"] by (simp add: new_student_ids_none)
  next
    case (Some t)
    from new_student_ids_some [OF Some, of c] obtain t' where
      t': "students (db_file (step c w)) = Some t'" "tbl_seq t \<le> tbl_seq t'"
          "\<forall>i\<in>set (new_student_ids c w). tbl_seq t < i \<and> i \<le> tbl_seq t'"
          "sorted_wrt (<) (new_student_ids c w)"
      by blast
    from Cons [of "step c w"] t'(1) have
      ih: "sorted_wrt (<) (assigned_student_ids cs (step c w))"
          "\<forall>i\<in>set (assigned_student_ids cs (step c w)). tbl_seq t' < i"
      by simp_all
    from t'(3) ih(2) have "\<forall>i\<in>set (new_student_ids c w).
        \<forall>j\<in>set (assigned_student_ids cs (step c w)). i < j"
      by fastforce
    moreover from t'(2) ih(2) have
      "\<forall>i\<in>set (assigned_student_ids cs (step c w)). tbl_seq t < i"
      by fastforce
    ultimately show ?thesis using Some t'(3,4) ih(1)
      by (auto simp: sorted_wrt_append)
  qed
qed

lemma assigned_record_ids_increasing:
  "sorted_wrt (<) (assigned_record_ids cs w)
   \<and> (\<forall>t. records (db_file w) = Some t
          \<longrightarrow> (\<forall>i\<in>set (assigned_record_ids cs w). tbl_seq t < i))"
proof (induction cs arbitrary: w)
  case Nil
  then show ?case by simp
next
  case (Cons c cs)
  show ?case
  proof (cases "records (db_file w)")
    case None
    then show ?thesis using Cons [of "step c w"] by (simp add: new_record_ids_none)
  next
    case (Some t)
    from new_record_ids_some [OF Some, of c] obtain t' where
      t': "records (db_file (step c w)) = Some t'" "tbl_seq t \<le> tbl_seq t'"
          "\<forall>i\<in>set (new_record_ids c w). tbl_seq t < i \<and> i \<le> tbl_seq t'"
          "sorted_wrt (<) (new_record_ids c w)"
      by blast
    from Cons [of "step c w"] t'(1) have
      ih: "sorted_wrt (<) (assigned_record_ids cs (step c w))"
          "\<forall>i\<in>set (assigned_record_ids cs (step c w)). tbl_seq t' < i"
      by simp_all
    from t'(3) ih(2) have "\<forall>i\<in>set (new_record_ids c w).
        \<forall>j\<in>set (assigned_record_ids cs (step c w)). i < j"
      by fastforce
    moreover from t'(2) ih(2) have
      "\<forall>i\<in>set (assigned_record_ids cs (step c w)). tbl_seq t < i"
      by fastforce
    ultimately show ?thesis using Some t'(3,4) ih(1)
      by (auto simp: sorted_wrt_append)
  qed
qed

text \<open>
  \<^bold>\<open>C10.\<close> Along any history of calls, from any store whose counters are not
  behind its tables, the ids assigned in each table rise strictly in the order
  they are assigned, and each is above every id the table held at the start. So
  no id is assigned twice, whatever was deleted in between.
\<close>

theorem ids_never_reused:
  assumes "counters_ok (db_file w)"
  shows "sorted_wrt (<) (assigned_student_ids cs w)
       \<and> sorted_wrt (<) (assigned_record_ids cs w)
       \<and> (\<forall>i\<in>set (assigned_student_ids cs w). \<forall>j\<in>set (student_ids w). j < i)
       \<and> (\<forall>i\<in>set (assigned_record_ids cs w). \<forall>j\<in>set (record_ids w). j < i)"
proof (intro conjI ballI)
  show "sorted_wrt (<) (assigned_student_ids cs w)"
    using assigned_student_ids_increasing [of cs w] by simp
  show "sorted_wrt (<) (assigned_record_ids cs w)"
    using assigned_record_ids_increasing [of cs w] by simp
next
  fix i j
  assume i: "i \<in> set (assigned_student_ids cs w)" and j: "j \<in> set (student_ids w)"
  from j obtain t where t: "students (db_file w) = Some t"
    and "j \<in> set (map students_id (tbl_rows t))"
    by (cases "students (db_file w)") (auto simp: student_ids_def)
  with assms have "j \<le> tbl_seq t"
    by (auto simp: counters_ok_def list_all_iff)
  moreover from assigned_student_ids_increasing [of cs w] t i have "tbl_seq t < i"
    by simp
  ultimately show "j < i" by simp
next
  fix i j
  assume i: "i \<in> set (assigned_record_ids cs w)" and j: "j \<in> set (record_ids w)"
  from j obtain t where t: "records (db_file w) = Some t"
    and "j \<in> set (map records_id (tbl_rows t))"
    by (cases "records (db_file w)") (auto simp: record_ids_def)
  with assms have "j \<le> tbl_seq t"
    by (auto simp: counters_ok_def list_all_iff)
  moreover from assigned_record_ids_increasing [of cs w] t i have "tbl_seq t < i"
    by simp
  ultimately show "j < i" by simp
qed

lemma example_calls_students: "assigned_student_ids example_calls example_world = [3, 4]"
  by (simp add: example_calls_def example_world_eq example_defs new_student_ids_def
        student_ids_def store_defs sql_defs conn_defs next_rowid_def fits_int64_def)

lemma example_calls_records: "assigned_record_ids example_calls example_world = [3]"
  by (simp add: example_calls_def example_world_eq example_defs new_record_ids_def
        record_ids_def store_defs sql_defs conn_defs next_rowid_def fits_int64_def)

theorem ids_never_reused_witness:
  "counters_ok (db_file example_world)
   \<and> student_ids example_world = [1, 2]
   \<and> record_ids example_world = [1, 2]
   \<and> assigned_student_ids example_calls example_world = [3, 4]
   \<and> assigned_record_ids example_calls example_world = [3]
   \<and> sorted_wrt (<) (assigned_student_ids example_calls example_world)
   \<and> sorted_wrt (<) (assigned_record_ids example_calls example_world)
   \<and> list_all (\<lambda>i. list_all (\<lambda>j. j < i) (student_ids example_world))
       (assigned_student_ids example_calls example_world)
   \<and> list_all (\<lambda>i. list_all (\<lambda>j. j < i) (record_ids example_world))
       (assigned_record_ids example_calls example_world)"
proof -
  have h: "counters_ok (db_file example_world)"
    by (simp add: example_world_eq example_defs counters_ok_def)
  have s: "student_ids example_world = [1, 2]" and r: "record_ids example_world = [1, 2]"
    by (simp_all add: example_world_eq example_defs student_ids_def record_ids_def)
  from ids_never_reused [OF h, of example_calls] h s r
    example_calls_students example_calls_records
  show ?thesis
    unfolding list_all_iff by blast
qed

end
